theory Spec2Isabelle
  imports Complex_Main
begin

section \<open>Python values and errors\<close>

text \<open>
  Exceptions of the Python sources are values: a function that can raise returns
  \<open>py_error + 'a\<close>, with \<open>Inl\<close> for the exception. Floating-point numbers and
  scalar tensors are modelled as reals (no rounding, no NaN); a one-dimensional numpy
  array is a \<open>real list\<close>.
\<close>

datatype py_error = IndexError | ValueError | AttributeError

subsection \<open>The numpy operations used by \<open>pyciemss/ouu/ouu.py\<close>\<close>

text \<open>
  Broadcasting of two one-dimensional shapes: equal lengths, or one of them of length 1
  (which is then repeated); any other pair of lengths raises \<open>ValueError\<close>.
\<close>

definition broadcast_shapes :: "nat \<Rightarrow> nat \<Rightarrow> py_error + nat" where
  "broadcast_shapes n m =
     (if n = m then Inr n
      else if n = 1 then Inr m
      else if m = 1 then Inr n
      else Inl ValueError)"

definition bget :: "real list \<Rightarrow> nat \<Rightarrow> real" where
  \<comment> \<open>the element read at position \<open>i\<close> of a broadcast operand\<close>
  "bget xs i = (if length xs = 1 then xs ! 0 else xs ! i)"

definition np_binop :: "(real \<Rightarrow> real \<Rightarrow> real) \<Rightarrow> real list \<Rightarrow> real list \<Rightarrow> py_error + real list" where
  "np_binop f xs ys =
     (case broadcast_shapes (length xs) (length ys) of
        Inl e \<Rightarrow> Inl e
      | Inr n \<Rightarrow> Inr (map (\<lambda>i. f (bget xs i) (bget ys i)) [0..<n]))"

definition np_add :: "real list \<Rightarrow> real list \<Rightarrow> py_error + real list" where
  "np_add = np_binop (+)"

definition np_sub :: "real list \<Rightarrow> real list \<Rightarrow> py_error + real list" where
  "np_sub = np_binop (-)"

definition np_maximum :: "real list \<Rightarrow> real list \<Rightarrow> py_error + real list" where
  "np_maximum = np_binop max"

definition np_minimum :: "real list \<Rightarrow> real list \<Rightarrow> py_error + real list" where
  "np_minimum = np_binop min"

definition np_clip :: "real list \<Rightarrow> real list \<Rightarrow> real list \<Rightarrow> py_error + real list" where
  \<comment> \<open>\<open>np.clip(a, a_min, a_max)\<close> is \<open>np.minimum(a_max, np.maximum(a, a_min))\<close>\<close>
  "np_clip a a_min a_max =
     (case np_maximum a a_min of
        Inl e \<Rightarrow> Inl e
      | Inr b \<Rightarrow> np_minimum b a_max)"

definition linalg_norm :: "real list \<Rightarrow> real" where
  \<comment> \<open>\<open>np.linalg.norm\<close> of a vector: the Euclidean norm\<close>
  "linalg_norm d = sqrt (sum_list (map (\<lambda>v. v * v) d))"

definition random_uniform :: "(nat \<Rightarrow> real) \<Rightarrow> real \<Rightarrow> real \<Rightarrow> nat \<Rightarrow> real list" where
  \<comment> \<open>\<open>np.random.uniform(low, high, n)\<close> for one realization \<open>r\<close> of the generator's
      unit draws: the \<open>i\<close>-th sample is \<open>low + (high - low) * r i\<close>\<close>
  "random_uniform r low high n = map (\<lambda>i. low + (high - low) * r i) [0..<n]"

section \<open>\<open>RandomDisplacementBounds\<close>\<close>

record RandomDisplacementBounds =
  xmin :: "real list"
  xmax :: "real list"
  stepsize :: real

definition truthy :: "real option \<Rightarrow> bool" where
  \<comment> \<open>Python's truth value of the \<open>stepsize\<close> argument: \<open>None\<close> and zero are false\<close>
  "truthy s = (case s of None \<Rightarrow> False | Some v \<Rightarrow> v \<noteq> 0)"

definition RandomDisplacementBounds_init ::
  "real list \<Rightarrow> real list \<Rightarrow> real option \<Rightarrow> py_error + RandomDisplacementBounds" where
  "RandomDisplacementBounds_init lo hi s =
     (if truthy s then Inr \<lparr>xmin = lo, xmax = hi, stepsize = the s\<rparr>
      else case np_sub hi lo of
             Inl e \<Rightarrow> Inl e
           | Inr d \<Rightarrow> Inr \<lparr>xmin = lo, xmax = hi, stepsize = (3 / 10) * linalg_norm d\<rparr>)"

definition RandomDisplacementBounds_call ::
  "RandomDisplacementBounds \<Rightarrow> (nat \<Rightarrow> real) \<Rightarrow> real list \<Rightarrow> py_error + real list" where
  \<comment> \<open>\<open>__call__(x)\<close> under the realization \<open>r\<close> of the random draws\<close>
  "RandomDisplacementBounds_call self r x =
     (case np_add x (random_uniform r (- stepsize self) (stepsize self) (length x)) of
        Inl e \<Rightarrow> Inl e
      | Inr a \<Rightarrow> np_clip a (xmin self) (xmax self))"

section \<open>\<open>pyciemss/interruptions.py\<close>: parameter interventions\<close>

text \<open>
  The model object (\<open>dynamics.__self__\<close>) is its attribute store: a map from attribute
  names to values. The solver state passed to a callback is a map of the same kind.
  An intervention dictionary is an association list with distinct keys, in the
  dictionary's iteration order.
\<close>

type_synonym dynamics_obj = "string \<rightharpoonup> real"

type_synonym state = "string \<rightharpoonup> real"

datatype intervention = Const real | Fn "real \<Rightarrow> real"

datatype event = StaticEvent real | ZeroEvent "real \<Rightarrow> state \<Rightarrow> real"

text \<open>
  Modelled from the spec: \<open>intervene\<close> is imported from \<open>chirho.interventional.ops\<close>
  and is not among the sources. The spec gives its result as "intervention(old) if
  intervention is callable, else the constant".
\<close>

fun intervene :: "real \<Rightarrow> intervention \<Rightarrow> real" where
  "intervene old (Fn f) = f old"
| "intervene old (Const c) = c"

definition getattr :: "dynamics_obj \<Rightarrow> string \<Rightarrow> py_error + real" where
  "getattr obj name = (case obj name of None \<Rightarrow> Inl AttributeError | Some v \<Rightarrow> Inr v)"

definition setattr :: "dynamics_obj \<Rightarrow> string \<Rightarrow> real \<Rightarrow> dynamics_obj" where
  "setattr obj name v = obj(name \<mapsto> v)"

fun callback_loop :: "(string \<times> intervention) list \<Rightarrow> dynamics_obj \<Rightarrow> py_error + dynamics_obj" where
  \<comment> \<open>the \<open>for\<close> loop of \<open>callback\<close> over \<open>intervention.items()\<close>\<close>
  "callback_loop [] obj = Inr obj"
| "callback_loop ((parameter_name, intervention_assignment) # rest) obj =
     (case getattr obj parameter_name of
        Inl e \<Rightarrow> Inl e
      | Inr old_parameter \<Rightarrow>
          callback_loop rest
            (setattr obj parameter_name (intervene old_parameter intervention_assignment)))"

definition callback ::
  "(string \<times> intervention) list \<Rightarrow> dynamics_obj \<times> state \<Rightarrow> py_error + dynamics_obj \<times> state" where
  \<comment> \<open>the callback run when the event fires; it returns the same (mutated) model object
      and the state it was given\<close>
  "callback iv ds =
     (case callback_loop iv (fst ds) of
        Inl e \<Rightarrow> Inl e
      | Inr obj' \<Rightarrow> Inr (obj', snd ds))"

record handler =
  event :: event
  intervention :: "(string \<times> intervention) list"

definition ParameterIntervention :: "event \<Rightarrow> (string \<times> intervention) list \<Rightarrow> handler" where
  \<comment> \<open>\<open>_ParameterIntervention\<close>: the callback closed over \<open>intervention\<close>, registered on \<open>event\<close>\<close>
  "ParameterIntervention ev iv = \<lparr>event = ev, intervention = iv\<rparr>"

definition StaticParameterIntervention :: "real \<Rightarrow> (string \<times> intervention) list \<Rightarrow> handler" where
  "StaticParameterIntervention time iv = ParameterIntervention (StaticEvent time) iv"

definition DynamicParameterIntervention ::
  "(real \<Rightarrow> state \<Rightarrow> real) \<Rightarrow> (string \<times> intervention) list \<Rightarrow> handler" where
  "DynamicParameterIntervention event_fn iv = ParameterIntervention (ZeroEvent event_fn) iv"

definition fire :: "handler \<Rightarrow> dynamics_obj \<times> state \<Rightarrow> py_error + dynamics_obj \<times> state" where
  "fire h = callback (intervention h)"

section \<open>\<open>computeRisk\<close>\<close>

text \<open>
  The state of the pseudo-random generators is the seed last set and the number of
  draws taken since. \<open>pyro.set_rng_seed\<close> restarts them from the seed.
\<close>

datatype rng = Rng nat nat

definition set_rng_seed :: "nat \<Rightarrow> rng \<Rightarrow> rng" where
  "set_rng_seed seed g = Rng seed 0"

record ('m, 'g, 'o, 's) computeRisk =
  model :: 'm
  interventions :: "(real \<times> string) list"
  qoi :: "'s \<Rightarrow> real list"
  risk_measure :: "real list \<Rightarrow> real"
  num_samples :: int
  start_time :: real
  end_time :: real
  guide :: 'g
  solver_method :: string
  solver_options :: 'o
  logging_times :: "real list"

text \<open>
  \<open>wrapped_model\<close> is a closure: the solver settings, the handlers entered on the exit
  stack and the arguments of the model call it makes.
\<close>

record ('m, 'o) wrapped_model =
  wm_solver_method :: string
  wm_solver_options :: 'o
  wm_handlers :: "handler list"
  wm_model :: 'm
  wm_start_time :: real
  wm_end_time :: real
  wm_logging_times :: "real list"
  wm_is_traced :: bool

text \<open>
  The sampling collaborator \<open>pyro.infer.Predictive(wrapped_model, guide, num_samples)()\<close>
  is a parameter of the model: it takes the closure, the guide, the number of samples and
  the generator state, and returns the samples (or raises) and the new generator state.
\<close>

type_synonym ('m, 'g, 'o, 's) predictive =
  "('m, 'o) wrapped_model \<Rightarrow> 'g \<Rightarrow> int \<Rightarrow> rng \<Rightarrow> (py_error + 's) \<times> rng"

fun make_handlers ::
  "(real \<times> string) list \<Rightarrow> real list \<Rightarrow> nat \<Rightarrow> handler list \<Rightarrow> py_error + handler list" where
  \<comment> \<open>the loop over \<open>self.interventions.items()\<close>; \<open>x[count]\<close> raises \<open>IndexError\<close>
      when \<open>count\<close> is not below the length of \<open>x\<close>\<close>
  "make_handlers [] x count hs = Inr hs"
| "make_handlers ((time, param) # rest) x count hs =
     (if count < length x
      then make_handlers rest x (count + 1)
             (hs @ [StaticParameterIntervention time [(param, Const (x ! count))]])
      else Inl IndexError)"

text \<open>
  In \<open>propagate_uncertainty\<close>, \<open>np.atleast_1d\<close> leaves a vector as it is and
  \<open>torch.as_tensor\<close> turns the component \<open>x[count]\<close> into the constant of the
  intervention.
\<close>

definition propagate_uncertainty ::
  "('m, 'g, 'o, 's) predictive \<Rightarrow> ('m, 'g, 'o, 's) computeRisk \<Rightarrow> real list \<Rightarrow> rng
     \<Rightarrow> (py_error + 's) \<times> rng" where
  "propagate_uncertainty predictive self x g =
     (let g0 = set_rng_seed 0 g in
      case make_handlers (interventions self) x 0 [] of
        Inl e \<Rightarrow> (Inl e, g0)
      | Inr static_parameter_intervention_handlers \<Rightarrow>
          predictive
            \<lparr>wm_solver_method = solver_method self,
             wm_solver_options = solver_options self,
             wm_handlers = static_parameter_intervention_handlers,
             wm_model = model self,
             wm_start_time = start_time self,
             wm_end_time = end_time self,
             wm_logging_times = logging_times self,
             wm_is_traced = True\<rparr>
            (guide self) (num_samples self) g0)"

definition computeRisk_call ::
  "('m, 'g, 'o, 's) predictive \<Rightarrow> ('m, 'g, 'o, 's) computeRisk \<Rightarrow> real list \<Rightarrow> rng
     \<Rightarrow> (py_error + real) \<times> rng" where
  \<comment> \<open>\<open>computeRisk.__call__\<close>\<close>
  "computeRisk_call predictive self x g =
     (case propagate_uncertainty predictive self x g of
        (Inl e, g') \<Rightarrow> (Inl e, g')
      | (Inr samples, g') \<Rightarrow> (Inr (risk_measure self (qoi self samples)), g'))"

section \<open>\<open>solveOUU\<close>\<close>

text \<open>
  A keyword dictionary is an association list in insertion order; its values are the
  kinds of value the source puts there.
\<close>

datatype 'c kwarg =
    KStr string
  | KNum real
  | KInt int
  | KBool bool
  | KCallback
  | KConstraints 'c
  | KDict "(string \<times> 'c kwarg) list"

definition dict_set :: "string \<Rightarrow> 'v \<Rightarrow> (string \<times> 'v) list \<Rightarrow> (string \<times> 'v) list" where
  "dict_set k v d =
     (if k \<in> fst ` set d then map (\<lambda>(k', v'). if k' = k then (k, v) else (k', v')) d
      else d @ [(k, v)])"

definition dict_update ::
  "(string \<times> 'v) list \<Rightarrow> (string \<times> 'v) list \<Rightarrow> (string \<times> 'v) list \<times> (string \<times> 'v) list option" where
  \<comment> \<open>\<open>d.update(e)\<close>: the dictionary after the in-place update, and the method's return
      value, which is always \<open>None\<close>\<close>
  "dict_update d e = (foldl (\<lambda>acc (k, v). dict_set k v acc) d e, None)"

definition dict_get :: "(string \<times> 'v) list \<Rightarrow> string \<Rightarrow> 'v option" where
  "dict_get d k = map_of d k"

record ('f, 'c) solveOUU =
  x0 :: "real list"
  objfun :: 'f
  constraints :: 'c
  minimizer_kwargs :: "(string \<times> 'c kwarg) list option"
  optimizer_algorithm :: string
  maxiter :: int
  maxfeval :: int
  u_bounds :: "real list list"

definition squeeze_row :: "real list \<Rightarrow> real list" where
  \<comment> \<open>\<open>np.squeeze(np.array([x0]))\<close>: the row itself (a single number becomes a
      zero-dimensional array, which the optimizer reads as a vector of length one)\<close>
  "squeeze_row v = v"

definition solveOUU_init ::
  "real list \<Rightarrow> 'f \<Rightarrow> 'c \<Rightarrow> (string \<times> 'c kwarg) list \<Rightarrow> string \<Rightarrow> int \<Rightarrow> int \<Rightarrow> real list list
     \<Rightarrow> ('f, 'c) solveOUU" where
  "solveOUU_init x0_arg objfun_arg constraints_arg minimizer_kwargs_arg optimizer_algorithm_arg
       maxfeval_arg maxiter_arg u_bounds_arg =
     \<lparr>x0 = squeeze_row x0_arg,
      objfun = objfun_arg,
      constraints = constraints_arg,
      minimizer_kwargs =
        snd (dict_update minimizer_kwargs_arg [(''constraints'', KConstraints constraints_arg)]),
      optimizer_algorithm = optimizer_algorithm_arg,
      maxiter = maxiter_arg,
      maxfeval = maxfeval_arg,
      u_bounds = u_bounds_arg\<rparr>"

definition row :: "real list list \<Rightarrow> nat \<Rightarrow> py_error + real list" where
  \<comment> \<open>\<open>a[i, :]\<close> of a two-dimensional array given by its rows\<close>
  "row a i = (if i < length a then Inr (a ! i) else Inl IndexError)"

record ('f, 'c) basinhopping_args =
  bh_func :: 'f
  bh_x0 :: "real list"
  bh_T :: real
  bh_niter :: int
  bh_minimizer_kwargs :: "(string \<times> 'c kwarg) list"
  bh_take_step :: RandomDisplacementBounds
  bh_interval :: int
  bh_disp :: bool

definition solve_minimizer_kwargs :: "('f, 'c) solveOUU \<Rightarrow> py_error + (string \<times> 'c kwarg) list" where
  \<comment> \<open>the local \<open>minimizer_kwargs\<close> dictionary built in \<open>solve\<close>\<close>
  "solve_minimizer_kwargs self =
     (case row (u_bounds self) 1 of
        Inl e \<Rightarrow> Inl e
      | Inr hi \<Rightarrow>
     (case row (u_bounds self) 0 of
        Inl e \<Rightarrow> Inl e
      | Inr lo \<Rightarrow>
     (case np_sub hi lo of
        Inl e \<Rightarrow> Inl e
      | Inr d \<Rightarrow>
          Inr [(''constraints'', KConstraints (constraints self)),
               (''method'', KStr ''COBYLA''),
               (''tol'', KNum (1 / 100000)),
               (''callback'', KCallback),
               (''options'',
                  KDict [(''rhobeg'', KNum ((1 / 10) * linalg_norm d)),
                         (''disp'', KBool False),
                         (''maxiter'', KInt (maxfeval self)),
                         (''catol'', KNum (1 / 100000))])])))"

definition solve_args :: "('f, 'c) solveOUU \<Rightarrow> py_error + ('f, 'c) basinhopping_args" where
  \<comment> \<open>everything \<open>solve\<close> does before it calls \<open>basinhopping\<close>: the arguments of that call\<close>
  "solve_args self =
     (case solve_minimizer_kwargs self of
        Inl e \<Rightarrow> Inl e
      | Inr kwargs \<Rightarrow>
     (case row (u_bounds self) 0 of
        Inl e \<Rightarrow> Inl e
      | Inr lo \<Rightarrow>
     (case row (u_bounds self) 1 of
        Inl e \<Rightarrow> Inl e
      | Inr hi \<Rightarrow>
     (case RandomDisplacementBounds_init lo hi None of
        Inl e \<Rightarrow> Inl e
      | Inr take_step \<Rightarrow>
          Inr \<lparr>bh_func = objfun self,
               bh_x0 = x0 self,
               bh_T = 3 / 2,
               bh_niter = maxiter self,
               bh_minimizer_kwargs = kwargs,
               bh_take_step = take_step,
               bh_interval = 2,
               bh_disp = False\<rparr>))))"

text \<open>
  \<open>scipy.optimize.basinhopping\<close> is a parameter of the model: a function of the arguments
  of the call and of the generator state. The progress bar of \<open>solve\<close> only counts calls
  and is left out.
\<close>

definition solveOUU_solve ::
  "(('f, 'c) basinhopping_args \<Rightarrow> rng \<Rightarrow> (py_error + 'r) \<times> rng) \<Rightarrow> ('f, 'c) solveOUU \<Rightarrow> rng
     \<Rightarrow> (py_error + 'r) \<times> rng" where
  "solveOUU_solve basinhopping self g =
     (case solve_args self of
        Inl e \<Rightarrow> (Inl e, g)
      | Inr args \<Rightarrow> basinhopping args g)"

section \<open>The superquantile risk measure\<close>

text \<open>
  Modelled from the spec: \<open>pyciemss/ouu/risk_measures.py\<close>, which defines
  \<open>alpha_superquantile\<close>, is not among the sources. The spec describes it as "the mean of
  the sample values at or above the empirical (1 - alpha)-quantile (the upper tail average)",
  with the maximum of the sample as alpha tends to 1 and the mean of the sample as alpha tends
  to 0. The quantile is therefore counted from the top of the sample: it is the largest
  sample value that has at least a share \<open>1 - alpha\<close> of the sample at or above it.
\<close>

definition count_at_or_above :: "real list \<Rightarrow> real \<Rightarrow> nat" where
  "count_at_or_above xs v = length (filter (\<lambda>x. v \<le> x) xs)"

definition upper_quantile :: "real list \<Rightarrow> real \<Rightarrow> real" where
  "upper_quantile xs q =
     Max (set (filter (\<lambda>v. q * real (length xs) \<le> real (count_at_or_above xs v)) xs))"

definition mean :: "real list \<Rightarrow> real" where
  "mean xs = sum_list xs / real (length xs)"

definition alpha_superquantile :: "real list \<Rightarrow> real \<Rightarrow> real" where
  "alpha_superquantile dataset alpha =
     mean (filter (\<lambda>x. upper_quantile dataset (1 - alpha) \<le> x) dataset)"

section \<open>Auxiliary definitions and example instances\<close>

definition handlers_of :: "(real \<times> string) list \<Rightarrow> real list \<Rightarrow> handler list" where
  \<comment> \<open>the handlers the loop of \<open>propagate_uncertainty\<close> builds, in closed form: the entries
      of the mapping paired with the components of the vector, position by position\<close>
  "handlers_of ivs vs =
     map (\<lambda>(tp, v). StaticParameterIntervention (fst tp) [(snd tp, Const v)]) (zip ivs vs)"

definition default_minimizer_kwargs :: "(string \<times> 'c kwarg) list" where
  \<comment> \<open>the default value of the constructor's \<open>minimizer_kwargs\<close> argument\<close>
  "default_minimizer_kwargs =
     [(''method'', KStr ''COBYLA''),
      (''tol'', KNum (1 / 100000)),
      (''options'', KDict [(''disp'', KBool False), (''maxiter'', KInt 10)])]"

text \<open>
  Example collaborators for the concrete checks: a sampler whose samples depend on the
  values of the handlers and on the generator state, and an optimizer that returns its
  starting point.
\<close>

definition handler_value :: "handler \<Rightarrow> real" where
  "handler_value h = sum_list (map (\<lambda>(n, a). intervene 0 a) (intervention h))"

definition example_predictive :: "(unit, unit, unit, real list) predictive" where
  "example_predictive wm gd n g =
     (case g of Rng s d \<Rightarrow>
        (Inr (map (\<lambda>h. handler_value h + real s + real d) (wm_handlers wm)),
         Rng s (d + nat n)))"

definition example_risk :: "(unit, unit, unit, real list) computeRisk" where
  "example_risk =
     \<lparr>model = (),
      interventions = [(1, ''beta''), (2, ''gamma'')],
      qoi = (\<lambda>samples. samples),
      risk_measure = sum_list,
      num_samples = 3,
      start_time = 0,
      end_time = 3,
      guide = (),
      solver_method = ''dopri5'',
      solver_options = (),
      logging_times = [1, 2]\<rparr>"

definition example_basinhopping ::
  "(unit, unit) basinhopping_args \<Rightarrow> rng \<Rightarrow> (py_error + real list) \<times> rng" where
  "example_basinhopping args g = (Inr (bh_x0 args), g)"

section \<open>Properties of \<open>RandomDisplacementBounds\<close>\<close>

lemma broadcast_shapes_same [simp]: "broadcast_shapes n n = Inr n"
  by (simp add: broadcast_shapes_def)

lemma np_binop_same_length:
  "length ys = length xs \<Longrightarrow> np_binop f xs ys = Inr (map (\<lambda>i. f (xs ! i) (ys ! i)) [0..<length xs])"
  by (auto simp: np_binop_def bget_def)

lemma np_binop_Inr:
  "np_binop f xs ys = Inr zs \<Longrightarrow>
   broadcast_shapes (length xs) (length ys) = Inr (length zs)
   \<and> (\<forall>i < length zs. zs ! i = f (bget xs i) (bget ys i))"
  by (auto simp: np_binop_def split: sum.splits)

lemma np_clip_within:
  assumes "np_clip a lo hi = Inr y"
    and "\<forall>i < length y. bget lo i \<le> bget hi i"
  shows "\<forall>i < length y. bget lo i \<le> y ! i \<and> y ! i \<le> bget hi i"
proof -
  from assms(1) obtain b where b: "np_binop max a lo = Inr b" and y: "np_binop min b hi = Inr y"
    by (auto simp: np_clip_def np_maximum_def np_minimum_def split: sum.splits)
  note B = np_binop_Inr [OF b] and Y = np_binop_Inr [OF y]
  show ?thesis
  proof (intro allI impI)
    fix i assume i: "i < length y"
    have yi: "y ! i = min (bget b i) (bget hi i)" using Y i by blast
    have le: "bget lo i \<le> bget hi i" using assms(2) i by blast
    have "bget lo i \<le> bget b i"
    proof (cases "length b = 1")
      case True
      then have "length lo = 1"
        using B by (auto simp: broadcast_shapes_def split: if_splits)
      moreover have "b ! 0 = max (bget a 0) (bget lo 0)" using B True by simp
      ultimately show ?thesis using True by (simp add: bget_def)
    next
      case False
      then have "length y = length b"
        using Y by (auto simp: broadcast_shapes_def split: if_splits)
      then have "b ! i = max (bget a i) (bget lo i)" using B i by simp
      then show ?thesis using False by (simp add: bget_def)
    qed
    then show "bget lo i \<le> y ! i \<and> y ! i \<le> bget hi i"
      using yi le by simp
  qed
qed

lemma call_within_broadcast_bounds:
  assumes "RandomDisplacementBounds_call self r x = Inr y"
    and "\<forall>i < length y. bget (xmin self) i \<le> bget (xmax self) i"
  shows "\<forall>i < length y. bget (xmin self) i \<le> y ! i \<and> y ! i \<le> bget (xmax self) i"
proof -
  from assms(1) obtain a where "np_clip a (xmin self) (xmax self) = Inr y"
    by (auto simp: RandomDisplacementBounds_call_def split: sum.splits)
  then show ?thesis using assms(2) by (rule np_clip_within)
qed

lemma call_returns_same_shape:
  assumes "length (xmin self) = length x" and "length (xmax self) = length x"
    and "\<forall>i < length x. xmin self ! i \<le> xmax self ! i"
  shows "\<exists>y. RandomDisplacementBounds_call self r x = Inr y \<and> length y = length x \<and>
           (\<forall>i < length x. xmin self ! i \<le> y ! i \<and> y ! i \<le> xmax self ! i)"
  using assms
  by (simp add: RandomDisplacementBounds_call_def np_add_def np_clip_def np_maximum_def
      np_minimum_def random_uniform_def np_binop_same_length)

text \<open>
  Claim C4. For every point \<open>x\<close> and every realization \<open>r\<close> of the random draws, the
  point the call returns lies component-wise between \<open>xmin\<close> and \<open>xmax\<close> (read through
  broadcasting) wherever \<open>xmin \<le> xmax\<close>; and when \<open>xmin\<close> and \<open>xmax\<close> have the shape of
  \<open>x\<close> and \<open>xmin \<le> xmax\<close> component-wise, the call does return a point, of that shape.
\<close>

theorem displacement_within_bounds:
  "(\<forall>y. RandomDisplacementBounds_call self r x = Inr y
         \<and> (\<forall>i < length y. bget (xmin self) i \<le> bget (xmax self) i)
      \<longrightarrow> (\<forall>i < length y. bget (xmin self) i \<le> y ! i \<and> y ! i \<le> bget (xmax self) i))
   \<and> (length (xmin self) = length x \<and> length (xmax self) = length x
        \<and> (\<forall>i < length x. xmin self ! i \<le> xmax self ! i)
      \<longrightarrow> (\<exists>y. RandomDisplacementBounds_call self r x = Inr y \<and> length y = length x \<and>
             (\<forall>i < length x. xmin self ! i \<le> y ! i \<and> y ! i \<le> xmax self ! i)))"
  using call_within_broadcast_bounds [of self r x] call_returns_same_shape [of self x r]
  by blast

theorem displacement_within_bounds_witness:
  "\<exists>y. RandomDisplacementBounds_call \<lparr>xmin = [0], xmax = [1], stepsize = 3 / 10\<rparr> (\<lambda>i. 1) [1 / 2]
          = Inr y
     \<and> length y = 1 \<and> (\<forall>i < 1. [0] ! i \<le> y ! i \<and> y ! i \<le> [1] ! i)"
  using displacement_within_bounds
    [where self = "\<lparr>xmin = [0], xmax = [1], stepsize = 3 / 10\<rparr>" and r = "\<lambda>i. 1"
       and x = "[1 / 2]"]
  by simp

text \<open>
  Claim C5. Constructed without a step size, on bounds of equal shape, the object's
  step size is 0.3 times the Euclidean norm of \<open>xmax - xmin\<close>; for \<open>xmin = [0]\<close> and
  \<open>xmax = [1]\<close> it is 0.3.
\<close>

theorem default_stepsize:
  assumes "length lo = length hi"
  shows "\<exists>self. RandomDisplacementBounds_init lo hi None = Inr self \<and>
           stepsize self = (3 / 10) * sqrt (\<Sum>i < length hi. (hi ! i - lo ! i)\<^sup>2)"
  using assms
  by (simp add: RandomDisplacementBounds_init_def truthy_def np_sub_def np_binop_same_length
      linalg_norm_def sum_list_sum_nth power2_eq_square atLeast0LessThan)

theorem default_stepsize_witness:
  "\<exists>self. RandomDisplacementBounds_init [0] [1] None = Inr self \<and> stepsize self = 3 / 10"
  using default_stepsize [of "[0]" "[1]"] by simp

text \<open>
  Claim C10. An explicit step size of zero is ignored like \<open>None\<close>: the constructor gives
  the same object as without a step size, and whenever the constructed object has step
  size zero, it is the object derived from the bounds.
\<close>

theorem falsy_stepsize_ignored:
  "RandomDisplacementBounds_init lo hi (Some 0) = RandomDisplacementBounds_init lo hi None
   \<and> (\<forall>v self. RandomDisplacementBounds_init lo hi (Some v) = Inr self \<and> stepsize self = 0
         \<longrightarrow> RandomDisplacementBounds_init lo hi None = Inr self)"
  by (auto simp: RandomDisplacementBounds_init_def truthy_def split: if_splits)

theorem falsy_stepsize_ignored_witness:
  "RandomDisplacementBounds_init [0] [0] (Some 0) = Inr \<lparr>xmin = [0], xmax = [0], stepsize = 0\<rparr>
   \<and> RandomDisplacementBounds_init [0] [0] None = Inr \<lparr>xmin = [0], xmax = [0], stepsize = 0\<rparr>
   \<and> RandomDisplacementBounds_init [0] [1] (Some 0) = Inr \<lparr>xmin = [0], xmax = [1], stepsize = 3 / 10\<rparr>"
proof -
  have a: "RandomDisplacementBounds_init [0] [0] (Some 0)
             = Inr \<lparr>xmin = [0], xmax = [0], stepsize = 0\<rparr>"
    by (simp add: RandomDisplacementBounds_init_def truthy_def np_sub_def np_binop_same_length
        linalg_norm_def)
  have b: "RandomDisplacementBounds_init [0] [1] None
             = Inr \<lparr>xmin = [0], xmax = [1], stepsize = 3 / 10\<rparr>"
    by (simp add: RandomDisplacementBounds_init_def truthy_def np_sub_def np_binop_same_length
        linalg_norm_def)
  from falsy_stepsize_ignored [of "[0]" "[0]"] a
  have "RandomDisplacementBounds_init [0] [0] None = Inr \<lparr>xmin = [0], xmax = [0], stepsize = 0\<rparr>"
    by simp
  moreover from falsy_stepsize_ignored [of "[0]" "[1]"] b
  have "RandomDisplacementBounds_init [0] [1] (Some 0)
          = Inr \<lparr>xmin = [0], xmax = [1], stepsize = 3 / 10\<rparr>"
    by simp
  ultimately show ?thesis using a by simp
qed

section \<open>Properties of the parameter interventions\<close>

lemma callback_loop_result:
  "distinct (map fst iv) \<Longrightarrow> fst ` set iv \<subseteq> dom obj \<Longrightarrow>
   \<exists>obj'. callback_loop iv obj = Inr obj' \<and>
     (\<forall>n. obj' n = (case map_of iv n of
                      None \<Rightarrow> obj n
                    | Some a \<Rightarrow> Some (intervene (the (obj n)) a)))"
proof (induction iv arbitrary: obj)
  case Nil
  then show ?case by simp
next
  case (Cons p rest)
  obtain name a where p: "p = (name, a)" by (cases p)
  from Cons.prems p obtain old where old: "obj name = Some old" by auto
  let ?obj1 = "setattr obj name (intervene old a)"
  have d: "distinct (map fst rest)" and notin: "name \<notin> fst ` set rest"
    using Cons.prems(1) p by auto
  have sub: "fst ` set rest \<subseteq> dom ?obj1"
    using Cons.prems(2) by (auto simp: setattr_def)
  from Cons.IH [OF d sub] obtain obj' where
    run: "callback_loop rest ?obj1 = Inr obj'" and
    val: "\<And>n. obj' n = (case map_of rest n of
                      None \<Rightarrow> ?obj1 n
                    | Some a \<Rightarrow> Some (intervene (the (?obj1 n)) a))"
    by blast
  have none: "map_of rest name = None"
    using notin by (simp add: map_of_eq_None_iff)
  have "callback_loop (p # rest) obj = Inr obj'"
    using run old p by (simp add: getattr_def)
  moreover have "obj' n = (case map_of (p # rest) n of
                      None \<Rightarrow> obj n
                    | Some a \<Rightarrow> Some (intervene (the (obj n)) a))" for n
  proof (cases "n = name")
    case True
    then show ?thesis using val [of n] none old p by (simp add: setattr_def)
  next
    case False
    then show ?thesis using val [of n] p by (simp add: setattr_def split: option.splits)
  qed
  ultimately show ?case by blast
qed

text \<open>
  Claim C6. When a parameter-intervention handler fires on a model object that has every
  named attribute, each named attribute is read from the object, the new value is the
  intervention applied to the old value when the intervention is a function and the
  constant otherwise, and it is written back to the same object: the callback returns
  that object with exactly the named attributes replaced, and the state it was given.
\<close>

theorem parameter_intervention_fires:
  assumes "distinct (map fst iv)" and "fst ` set iv \<subseteq> dom obj"
  shows "\<exists>obj'. fire (ParameterIntervention ev iv) (obj, st) = Inr (obj', st) \<and>
     (\<forall>n. obj' n = (case map_of iv n of
                      None \<Rightarrow> obj n
                    | Some (Fn f) \<Rightarrow> Some (f (the (obj n)))
                    | Some (Const c) \<Rightarrow> Some c))"
proof -
  from callback_loop_result [OF assms] obtain obj' where
    run: "callback_loop iv obj = Inr obj'" and
    val: "\<And>n. obj' n = (case map_of iv n of
                      None \<Rightarrow> obj n
                    | Some a \<Rightarrow> Some (intervene (the (obj n)) a))"
    by blast
  have "fire (ParameterIntervention ev iv) (obj, st) = Inr (obj', st)"
    using run by (simp add: fire_def ParameterIntervention_def callback_def)
  moreover have "obj' n = (case map_of iv n of
                      None \<Rightarrow> obj n
                    | Some (Fn f) \<Rightarrow> Some (f (the (obj n)))
                    | Some (Const c) \<Rightarrow> Some c)" for n
    using val [of n] by (simp split: option.splits intervention.splits)
  ultimately show ?thesis by blast
qed

theorem parameter_intervention_fires_witness:
  "\<exists>obj'. fire (ParameterIntervention (StaticEvent 1)
                  [(''beta'', Const 5), (''gamma'', Fn (\<lambda>v. v + 1))])
             ([''beta'' \<mapsto> 2, ''gamma'' \<mapsto> 3, ''delta'' \<mapsto> 4], Map.empty)
           = Inr (obj', Map.empty)
         \<and> obj' ''beta'' = Some 5 \<and> obj' ''gamma'' = Some 4 \<and> obj' ''delta'' = Some 4"
proof -
  let ?iv = "[(''beta'', Const 5), (''gamma'', Fn (\<lambda>v. v + 1))]"
  let ?obj = "[''beta'' \<mapsto> 2, ''gamma'' \<mapsto> 3, ''delta'' \<mapsto> (4::real)]"
  have d: "distinct (map fst ?iv)" by simp
  have s: "fst ` set ?iv \<subseteq> dom ?obj" by simp
  from parameter_intervention_fires [OF d s, of "StaticEvent 1" Map.empty]
  obtain obj' where
    run: "fire (ParameterIntervention (StaticEvent 1) ?iv) (?obj, Map.empty) = Inr (obj', Map.empty)"
    and val: "\<And>n. obj' n = (case map_of ?iv n of
                      None \<Rightarrow> ?obj n
                    | Some (Fn f) \<Rightarrow> Some (f (the (?obj n)))
                    | Some (Const c) \<Rightarrow> Some c)"
    by blast
  have "obj' ''beta'' = Some 5" using val [of "''beta''"] by simp
  moreover have "obj' ''gamma'' = Some 4" using val [of "''gamma''"] by simp
  moreover have "obj' ''delta'' = Some 4" using val [of "''delta''"] by simp
  ultimately show ?thesis using run by blast
qed

section \<open>Properties of \<open>computeRisk\<close>\<close>

lemma make_handlers_result:
  "make_handlers ivs x count hs =
     (if ivs = [] \<or> count + length ivs \<le> length x
      then Inr (hs @ handlers_of ivs (drop count x))
      else Inl IndexError)"
proof (induction ivs arbitrary: count hs)
  case Nil
  then show ?case by (simp add: handlers_of_def)
next
  case (Cons p rest)
  obtain time param where p: "p = (time, param)" by (cases p)
  show ?case
  proof (cases "count < length x")
    case True
    then have "drop count x = x ! count # drop (Suc count) x"
      by (simp add: Cons_nth_drop_Suc)
    then show ?thesis
      using True Cons.IH [of "Suc count"] p by (auto simp: handlers_of_def)
  next
    case False
    then show ?thesis using p by simp
  qed
qed

lemma zip_take_length: "zip xs (take (length xs) ys) = zip xs ys"
proof (induction xs arbitrary: ys)
  case Nil
  then show ?case by simp
next
  case (Cons a xs)
  then show ?case by (cases ys) simp_all
qed

lemma handlers_of_nth:
  "length ivs \<le> length vs \<Longrightarrow> i < length ivs \<Longrightarrow>
   handlers_of ivs vs ! i = StaticParameterIntervention (fst (ivs ! i)) [(snd (ivs ! i), Const (vs ! i))]"
  by (simp add: handlers_of_def)

lemma length_handlers_of: "length ivs \<le> length vs \<Longrightarrow> length (handlers_of ivs vs) = length ivs"
  by (simp add: handlers_of_def)

text \<open>
  Claim C1 (as amended). A candidate vector with fewer components than the mapping has
  (time, parameter) entries makes the evaluation raise \<open>IndexError\<close> while the handlers
  are built: the sampler is never reached and only the seed has been reset. A vector
  with more components is evaluated as its first components alone.
\<close>

theorem short_vector_raises_IndexError:
  "(length x < length (interventions self) \<longrightarrow>
      computeRisk_call predictive self x g = (Inl IndexError, set_rng_seed 0 g)
      \<and> propagate_uncertainty predictive self x g = (Inl IndexError, set_rng_seed 0 g))
   \<and> (length (interventions self) \<le> length x \<longrightarrow>
      computeRisk_call predictive self x g
        = computeRisk_call predictive self (take (length (interventions self)) x) g)"
  by (auto simp: computeRisk_call_def propagate_uncertainty_def make_handlers_result Let_def
      handlers_of_def zip_take_length)

theorem wrong_length_counterexample:
  "fst (computeRisk_call example_predictive example_risk [1 / 10, 1 / 2, 9] (Rng 7 3)) = Inr (3 / 5)
   \<and> fst (computeRisk_call example_predictive example_risk [1 / 10] (Rng 7 3)) = Inl IndexError
   \<and> length [1 / 10, 1 / 2, 9 :: real] \<noteq> length (interventions example_risk)
   \<and> length [1 / 10 :: real] \<noteq> length (interventions example_risk)"
  by (simp add: computeRisk_call_def propagate_uncertainty_def set_rng_seed_def Let_def
      example_predictive_def example_risk_def StaticParameterIntervention_def
      ParameterIntervention_def handler_value_def)

theorem short_vector_raises_IndexError_witness:
  "computeRisk_call example_predictive example_risk [1 / 10] (Rng 7 3) = (Inl IndexError, Rng 0 0)
   \<and> computeRisk_call example_predictive example_risk [1 / 10, 1 / 2, 9] (Rng 7 3)
       = computeRisk_call example_predictive example_risk [1 / 10, 1 / 2] (Rng 7 3)"
  using short_vector_raises_IndexError [of "[1 / 10]" example_risk example_predictive "Rng 7 3"]
    short_vector_raises_IndexError
      [of "[1 / 10, 1 / 2, 9]" example_risk example_predictive "Rng 7 3"]
  by (simp add: example_risk_def set_rng_seed_def)

text \<open>
  Claim C7. For a mapping with \<open>k\<close> entries and a candidate vector with at least \<open>k\<close>
  components, \<open>propagate_uncertainty\<close> is the sampler run, from the generator state of
  seed 0, on the closure that holds exactly \<open>k\<close> handlers, the \<open>i\<close>-th being the static
  parameter intervention of the \<open>i\<close>-th entry with the value \<open>x[i]\<close>, with the guide and
  the number of samples of the object.
\<close>

theorem one_handler_per_entry:
  assumes "length (interventions self) \<le> length x"
  shows "\<exists>hs. propagate_uncertainty predictive self x g =
     predictive
       \<lparr>wm_solver_method = solver_method self,
        wm_solver_options = solver_options self,
        wm_handlers = hs,
        wm_model = model self,
        wm_start_time = start_time self,
        wm_end_time = end_time self,
        wm_logging_times = logging_times self,
        wm_is_traced = True\<rparr>
       (guide self) (num_samples self) (set_rng_seed 0 g)
     \<and> length hs = length (interventions self)
     \<and> (\<forall>i < length (interventions self).
           hs ! i = StaticParameterIntervention (fst (interventions self ! i))
                      [(snd (interventions self ! i), Const (x ! i))])"
proof -
  let ?hs = "handlers_of (interventions self) x"
  have "make_handlers (interventions self) x 0 [] = Inr ?hs"
    using assms by (simp add: make_handlers_result handlers_of_def)
  then have "propagate_uncertainty predictive self x g =
     predictive
       \<lparr>wm_solver_method = solver_method self,
        wm_solver_options = solver_options self,
        wm_handlers = ?hs,
        wm_model = model self,
        wm_start_time = start_time self,
        wm_end_time = end_time self,
        wm_logging_times = logging_times self,
        wm_is_traced = True\<rparr>
       (guide self) (num_samples self) (set_rng_seed 0 g)"
    by (simp add: propagate_uncertainty_def Let_def)
  moreover have "length ?hs = length (interventions self)"
    using assms by (rule length_handlers_of)
  moreover have "\<forall>i < length (interventions self).
           ?hs ! i = StaticParameterIntervention (fst (interventions self ! i))
                      [(snd (interventions self ! i), Const (x ! i))]"
    using assms by (simp add: handlers_of_nth)
  ultimately show ?thesis by blast
qed

theorem one_handler_per_entry_witness:
  "\<exists>hs. propagate_uncertainty example_predictive example_risk [1 / 10, 1 / 2] (Rng 7 3) =
     example_predictive
       \<lparr>wm_solver_method = ''dopri5'',
        wm_solver_options = (),
        wm_handlers = hs,
        wm_model = (),
        wm_start_time = 0,
        wm_end_time = 3,
        wm_logging_times = [1, 2],
        wm_is_traced = True\<rparr>
       () 3 (Rng 0 0)
     \<and> length hs = 2
     \<and> hs ! 0 = StaticParameterIntervention 1 [(''beta'', Const (1 / 10))]
     \<and> hs ! 1 = StaticParameterIntervention 2 [(''gamma'', Const (1 / 2))]"
proof -
  have k: "length (interventions example_risk) \<le> length [1 / 10, 1 / 2 :: real]"
    by (simp add: example_risk_def)
  from one_handler_per_entry [OF k, of example_predictive "Rng 7 3"]
  obtain hs where
    run: "propagate_uncertainty example_predictive example_risk [1 / 10, 1 / 2] (Rng 7 3) =
       example_predictive
         \<lparr>wm_solver_method = solver_method example_risk,
          wm_solver_options = solver_options example_risk,
          wm_handlers = hs,
          wm_model = model example_risk,
          wm_start_time = start_time example_risk,
          wm_end_time = end_time example_risk,
          wm_logging_times = logging_times example_risk,
          wm_is_traced = True\<rparr>
         (guide example_risk) (num_samples example_risk) (set_rng_seed 0 (Rng 7 3))"
    and len: "length hs = length (interventions example_risk)"
    and nth: "\<And>i. i < length (interventions example_risk) \<Longrightarrow>
           hs ! i = StaticParameterIntervention (fst (interventions example_risk ! i))
                      [(snd (interventions example_risk ! i), Const ([1 / 10, 1 / 2] ! i))]"
    by blast
  have "hs ! 0 = StaticParameterIntervention 1 [(''beta'', Const (1 / 10))]"
    using nth [of 0] by (simp add: example_risk_def)
  moreover have "hs ! 1 = StaticParameterIntervention 2 [(''gamma'', Const (1 / 2))]"
    using nth [of 1] by (simp add: example_risk_def)
  moreover have "length hs = 2"
    using len by (simp add: example_risk_def)
  ultimately show ?thesis
    using run by (intro exI [of _ hs]) (simp add: example_risk_def set_rng_seed_def)
qed

text \<open>
  Claim C2. The risk returned by an evaluation does not depend on the generator state it
  starts from, and a second evaluation of the same vector, run after the first, returns
  the same risk: every evaluation first resets the seed to 0.
\<close>

theorem evaluate_deterministic:
  "fst (computeRisk_call predictive self x g) = fst (computeRisk_call predictive self x g')
   \<and> fst (computeRisk_call predictive self x (snd (computeRisk_call predictive self x g)))
       = fst (computeRisk_call predictive self x g)"
  by (simp add: computeRisk_call_def propagate_uncertainty_def set_rng_seed_def Let_def)

theorem evaluate_deterministic_witness:
  "fst (computeRisk_call example_predictive example_risk [1 / 10, 1 / 2] (Rng 7 3)) = Inr (3 / 5)
   \<and> fst (computeRisk_call example_predictive example_risk [1 / 10, 1 / 2] (Rng 9 5)) = Inr (3 / 5)"
proof -
  have "fst (computeRisk_call example_predictive example_risk [1 / 10, 1 / 2] (Rng 7 3)) = Inr (3 / 5)"
    by (simp add: computeRisk_call_def propagate_uncertainty_def set_rng_seed_def Let_def
        example_predictive_def example_risk_def StaticParameterIntervention_def
        ParameterIntervention_def handler_value_def)
  then show ?thesis
    using evaluate_deterministic
      [of example_predictive example_risk "[1 / 10, 1 / 2]" "Rng 7 3" "Rng 9 5"]
    by simp
qed

section \<open>Properties of \<open>solveOUU\<close>\<close>

lemma solve_args_init:
  "solve_args (solveOUU_init x0a f c mk alg mf mi ub)
   = solve_args (solveOUU_init x0a f c mk' alg mf mi ub)"
  by (simp add: solve_args_def solve_minimizer_kwargs_def solveOUU_init_def split: sum.splits)

text \<open>
  Claim C9. The constructor stores \<open>None\<close> as \<open>minimizer_kwargs\<close> whatever dictionary it
  is given, two objects constructed from the same arguments apart from that dictionary
  make \<open>solve\<close> behave identically, and whenever \<open>solve\<close> reaches the optimizer, the
  local-minimizer settings it passes have method COBYLA, tolerance 1e-5 and \<open>maxiter\<close>
  equal to \<open>maxfeval\<close>.
\<close>

theorem solve_ignores_minimizer_kwargs:
  "minimizer_kwargs (solveOUU_init x0a f c mk alg mf mi ub) = None
   \<and> solveOUU_solve basinhopping (solveOUU_init x0a f c mk alg mf mi ub) g
       = solveOUU_solve basinhopping (solveOUU_init x0a f c mk' alg mf mi ub) g
   \<and> (\<forall>args. solve_args (solveOUU_init x0a f c mk alg mf mi ub) = Inr args \<longrightarrow>
         dict_get (bh_minimizer_kwargs args) ''method'' = Some (KStr ''COBYLA'')
         \<and> dict_get (bh_minimizer_kwargs args) ''tol'' = Some (KNum (1 / 100000))
         \<and> (\<exists>opts. dict_get (bh_minimizer_kwargs args) ''options'' = Some (KDict opts)
                \<and> dict_get opts ''maxiter'' = Some (KInt mf)))"
proof (intro conjI allI impI)
  show "minimizer_kwargs (solveOUU_init x0a f c mk alg mf mi ub) = None"
    by (simp add: solveOUU_init_def dict_update_def)
  show "solveOUU_solve basinhopping (solveOUU_init x0a f c mk alg mf mi ub) g
       = solveOUU_solve basinhopping (solveOUU_init x0a f c mk' alg mf mi ub) g"
    by (simp add: solveOUU_solve_def solve_args_init [of x0a f c mk alg mf mi ub mk'])
next
  fix args
  assume a: "solve_args (solveOUU_init x0a f c mk alg mf mi ub) = Inr args"
  then obtain kw where
    kw: "solve_minimizer_kwargs (solveOUU_init x0a f c mk alg mf mi ub) = Inr kw"
    and eq: "bh_minimizer_kwargs args = kw"
    by (auto simp: solve_args_def split: sum.splits)
  from kw obtain d where
    kwd: "kw = [(''constraints'', KConstraints c),
               (''method'', KStr ''COBYLA''),
               (''tol'', KNum (1 / 100000)),
               (''callback'', KCallback),
               (''options'',
                  KDict [(''rhobeg'', KNum ((1 / 10) * linalg_norm d)),
                         (''disp'', KBool False),
                         (''maxiter'', KInt mf),
                         (''catol'', KNum (1 / 100000))])]"
    by (auto simp: solve_minimizer_kwargs_def solveOUU_init_def split: sum.splits)
  show "dict_get (bh_minimizer_kwargs args) ''method'' = Some (KStr ''COBYLA'')"
    by (simp add: eq kwd dict_get_def)
  show "dict_get (bh_minimizer_kwargs args) ''tol'' = Some (KNum (1 / 100000))"
    by (simp add: eq kwd dict_get_def)
  show "\<exists>opts. dict_get (bh_minimizer_kwargs args) ''options'' = Some (KDict opts)
                \<and> dict_get opts ''maxiter'' = Some (KInt mf)"
    by (simp add: eq kwd dict_get_def)
qed

lemma example_args:
  "solve_args (solveOUU_init [1 / 2] () () default_minimizer_kwargs ''basinhopping'' 100 100 [[0], [1]])
   = Inr \<lparr>bh_func = (), bh_x0 = [1 / 2], bh_T = 3 / 2, bh_niter = 100,
          bh_minimizer_kwargs =
            [(''constraints'', KConstraints ()),
             (''method'', KStr ''COBYLA''),
             (''tol'', KNum (1 / 100000)),
             (''callback'', KCallback),
             (''options'',
                KDict [(''rhobeg'', KNum (1 / 10)),
                       (''disp'', KBool False),
                       (''maxiter'', KInt 100),
                       (''catol'', KNum (1 / 100000))])],
          bh_take_step = \<lparr>xmin = [0], xmax = [1], stepsize = 3 / 10\<rparr>,
          bh_interval = 2, bh_disp = False\<rparr>"
  by (simp add: solve_args_def solve_minimizer_kwargs_def solveOUU_init_def row_def squeeze_row_def
      RandomDisplacementBounds_init_def truthy_def np_sub_def np_binop_same_length linalg_norm_def)

theorem solve_ignores_minimizer_kwargs_witness:
  "solveOUU_solve example_basinhopping
     (solveOUU_init [1 / 2] () () default_minimizer_kwargs ''basinhopping'' 100 100 [[0], [1]])
     (Rng 0 0)
   = solveOUU_solve example_basinhopping
     (solveOUU_init [1 / 2] () () [(''method'', KStr ''Nelder-Mead'')] ''basinhopping'' 100 100 [[0], [1]])
     (Rng 0 0)
   \<and> (\<exists>args. solve_args
         (solveOUU_init [1 / 2] () () default_minimizer_kwargs ''basinhopping'' 100 100 [[0], [1]])
         = Inr args
       \<and> dict_get (bh_minimizer_kwargs args) ''method'' = Some (KStr ''COBYLA'')
       \<and> dict_get (bh_minimizer_kwargs args) ''tol'' = Some (KNum (1 / 100000))
       \<and> (\<exists>opts. dict_get (bh_minimizer_kwargs args) ''options'' = Some (KDict opts)
                \<and> dict_get opts ''maxiter'' = Some (KInt 100)))"
  using solve_ignores_minimizer_kwargs
    [of "[1 / 2]" "()" "()" default_minimizer_kwargs "''basinhopping''" 100 100 "[[0], [1]]"
        example_basinhopping "Rng 0 0" "[(''method'', KStr ''Nelder-Mead'')]"]
    example_args
  by blast

section \<open>Properties of the superquantile\<close>

lemma sum_list_le_bound:
  fixes ys :: "real list"
  shows "(\<And>y. y \<in> set ys \<Longrightarrow> y \<le> t) \<Longrightarrow> sum_list ys \<le> t * real (length ys)"
  by (induction ys) (auto simp: algebra_simps add_mono)

lemma sum_list_ge_bound:
  fixes ys :: "real list"
  shows "(\<And>y. y \<in> set ys \<Longrightarrow> t \<le> y) \<Longrightarrow> t * real (length ys) \<le> sum_list ys"
  by (induction ys) (auto simp: algebra_simps add_mono)

lemma tail_split_sum:
  fixes xs :: "real list"
  assumes "t1 \<le> t2"
  shows "sum_list (filter (\<lambda>x. t1 \<le> x) xs)
       = sum_list (filter (\<lambda>x. t2 \<le> x) xs) + sum_list (filter (\<lambda>x. t1 \<le> x \<and> \<not> t2 \<le> x) xs)"
  using assms by (induction xs) auto

lemma tail_split_length:
  fixes xs :: "real list"
  assumes "t1 \<le> t2"
  shows "length (filter (\<lambda>x. t1 \<le> x) xs)
       = length (filter (\<lambda>x. t2 \<le> x) xs) + length (filter (\<lambda>x. t1 \<le> x \<and> \<not> t2 \<le> x) xs)"
  using assms by (induction xs) auto

lemma tail_mean_mono:
  fixes xs :: "real list"
  assumes le: "t1 \<le> t2" and ne: "\<exists>x \<in> set xs. t2 \<le> x"
  shows "mean (filter (\<lambda>x. t1 \<le> x) xs) \<le> mean (filter (\<lambda>x. t2 \<le> x) xs)"
proof -
  let ?B = "filter (\<lambda>x. t2 \<le> x) xs"
  let ?C = "filter (\<lambda>x. t1 \<le> x \<and> \<not> t2 \<le> x) xs"
  define sB where "sB = sum_list ?B"
  define sC where "sC = sum_list ?C"
  define nB where "nB = real (length ?B)"
  define nC where "nC = real (length ?C)"
  have "?B \<noteq> []" using ne by (auto simp: filter_empty_conv)
  then have nB: "0 < nB" by (simp add: nB_def)
  have nC: "0 \<le> nC" by (simp add: nC_def)
  have B: "t2 * nB \<le> sB" unfolding sB_def nB_def by (rule sum_list_ge_bound) simp
  have C: "sC \<le> t2 * nC" unfolding sC_def nC_def by (rule sum_list_le_bound) simp
  have "sC * nB \<le> (t2 * nC) * nB" using C nB by (simp add: mult_right_mono)
  also have "\<dots> = (t2 * nB) * nC" by simp
  also have "\<dots> \<le> sB * nC" using B nC by (simp add: mult_right_mono)
  finally have key: "sC * nB \<le> sB * nC" .
  have "(sB + sC) / (nB + nC) \<le> sB / nB"
  proof -
    have "(sB + sC) * nB \<le> sB * (nB + nC)" using key by (simp add: algebra_simps)
    then show ?thesis using nB nC by (simp add: field_simps)
  qed
  then show ?thesis
    unfolding mean_def tail_split_sum [OF le] tail_split_length [OF le]
    by (simp add: sB_def sC_def nB_def nC_def)
qed

lemma quantile_candidates_nonempty:
  assumes "xs \<noteq> []" and "q \<le> 1"
  shows "Min (set xs) \<in> set (filter (\<lambda>v. q * real (length xs) \<le> real (count_at_or_above xs v)) xs)"
proof -
  have m: "Min (set xs) \<in> set xs" using assms(1) by simp
  have "filter (\<lambda>x. Min (set xs) \<le> x) xs = xs" by (simp add: filter_id_conv)
  then have "count_at_or_above xs (Min (set xs)) = length xs"
    by (simp add: count_at_or_above_def)
  moreover have "q * real (length xs) \<le> 1 * real (length xs)"
    using assms(2) by (intro mult_right_mono) simp_all
  ultimately show ?thesis using m by simp
qed

lemma upper_quantile_in_sample:
  assumes "xs \<noteq> []" and "q \<le> 1"
  shows "upper_quantile xs q \<in> set xs"
proof -
  let ?S = "set (filter (\<lambda>v. q * real (length xs) \<le> real (count_at_or_above xs v)) xs)"
  have "?S \<noteq> {}" using quantile_candidates_nonempty [OF assms] by (metis empty_iff)
  then have "Max ?S \<in> ?S" by (intro Max_in) simp_all
  then show ?thesis unfolding upper_quantile_def by simp
qed

lemma upper_quantile_antimono:
  assumes "xs \<noteq> []" and "q2 \<le> q1" and "q1 \<le> 1"
  shows "upper_quantile xs q1 \<le> upper_quantile xs q2"
proof -
  let ?S1 = "set (filter (\<lambda>v. q1 * real (length xs) \<le> real (count_at_or_above xs v)) xs)"
  let ?S2 = "set (filter (\<lambda>v. q2 * real (length xs) \<le> real (count_at_or_above xs v)) xs)"
  have ne: "?S1 \<noteq> {}" using quantile_candidates_nonempty [OF assms(1,3)] by (metis empty_iff)
  have "q2 * real (length xs) \<le> q1 * real (length xs)"
    using assms(2) by (intro mult_right_mono) simp_all
  then have sub: "?S1 \<subseteq> ?S2" by auto
  have "Max ?S1 \<le> Max ?S2" using sub ne by (intro Max_mono) simp_all
  then show ?thesis unfolding upper_quantile_def .
qed

text \<open>
  Claim C8. For every non-empty sample and all levels \<open>0 < a1 \<le> a2 < 1\<close>, the
  superquantile at \<open>a2\<close> is at least the superquantile at \<open>a1\<close>.
\<close>

theorem superquantile_monotone:
  assumes "dataset \<noteq> []" and "0 < a1" and "a1 \<le> a2" and "a2 < 1"
  shows "alpha_superquantile dataset a1 \<le> alpha_superquantile dataset a2"
proof -
  have le: "upper_quantile dataset (1 - a1) \<le> upper_quantile dataset (1 - a2)"
    using assms by (intro upper_quantile_antimono) simp_all
  have "upper_quantile dataset (1 - a2) \<in> set dataset"
    using assms by (intro upper_quantile_in_sample) simp_all
  then have ne: "\<exists>x \<in> set dataset. upper_quantile dataset (1 - a2) \<le> x" by blast
  show ?thesis unfolding alpha_superquantile_def by (rule tail_mean_mono [OF le ne])
qed

lemma superquantile_example: "alpha_superquantile [3, 1, 4, 2] (1 / 2) = 7 / 2"
  by (simp add: alpha_superquantile_def upper_quantile_def count_at_or_above_def mean_def)

theorem superquantile_monotone_witness:
  "alpha_superquantile [1, 2, 3, 4] (1 / 10) \<le> alpha_superquantile [1, 2, 3, 4] (9 / 10)"
  using superquantile_monotone [of "[1, 2, 3, 4]" "1 / 10" "9 / 10"] by simp

end
